theory Spec2Isabelle
  imports Main "HOL-Library.Sublist"
begin

section \<open>Strings and the clock\<close>

text \<open>
  Python strings are modelled as \<open>string\<close> restricted to ASCII: the only digits are
  \<open>0\<close> .. \<open>9\<close>. A naive \<open>datetime\<close> is the number of microseconds since
  0001-01-01 00:00:00; naive datetimes have no time zone and no leap seconds, so
  every day has 86400 seconds and adding a \<open>timedelta\<close> is integer addition.
\<close>

definition is_digit :: "char \<Rightarrow> bool" where
  "is_digit c = (c \<in> set ''0123456789'')"

definition digit_val :: "char \<Rightarrow> int" where
  "digit_val c = int (of_char c) - 48"

type_synonym datetime = int

datatype py_error = OverflowError | Interrupted

text \<open>\<open>datetime.min\<close> is 0; \<open>DT_LIMIT\<close> is one microsecond past \<open>datetime.max\<close>
  (9999-12-31 23:59:59.999999, day ordinal 3652059).\<close>

definition DT_LIMIT :: int where
  "DT_LIMIT = 3652059 * 86400000000"

text \<open>1900-01-01 00:00, the date \<open>strptime\<close> fills in (day ordinal 693596).\<close>

definition DT_1900 :: int where
  "DT_1900 = 693595 * 86400000000"

definition dt_hour :: "datetime \<Rightarrow> int" where
  "dt_hour t = (t div 3600000000) mod 24"

definition dt_minute :: "datetime \<Rightarrow> int" where
  "dt_minute t = (t div 60000000) mod 60"

definition dt_second :: "datetime \<Rightarrow> int" where
  "dt_second t = (t div 1000000) mod 60"

text \<open>\<open>dt + timedelta(minutes=n)\<close>. Both the \<open>timedelta\<close> constructor (beyond
  999999999 days) and the addition (outside \<open>datetime.min\<close> .. \<open>datetime.max\<close>) raise
  \<open>OverflowError\<close>; the first bound lies outside the second, so one range test
  decides.\<close>

definition dt_add_minutes :: "datetime \<Rightarrow> int \<Rightarrow> py_error + datetime" where
  "dt_add_minutes t n =
     (let r = t + n * 60000000
      in if 0 \<le> r \<and> r < DT_LIMIT then Inr r else Inl OverflowError)"

text \<open>\<open>dt.replace(minute=m, second=0)\<close>: the microseconds stay.\<close>

definition replace_minute_second0 :: "datetime \<Rightarrow> int \<Rightarrow> datetime" where
  "replace_minute_second0 t m =
     t - dt_minute t * 60000000 - dt_second t * 1000000 + m * 60000000"


text \<open>\<open>dt.replace(hour=h, minute=m, second=0)\<close>.\<close>

definition replace_hour_minute_second0 :: "datetime \<Rightarrow> int \<Rightarrow> int \<Rightarrow> datetime" where
  "replace_hour_minute_second0 t h m =
     t - dt_hour t * 3600000000 - dt_minute t * 60000000 - dt_second t * 1000000
       + h * 3600000000 + m * 60000000"

text \<open>The character of a decimal digit; it is only applied to quotients and
  remainders by 10 of an hour below 24 or a minute below 60.\<close>

definition digit_char :: "int \<Rightarrow> char" where
  "digit_char d = ''0123456789'' ! nat d"

text \<open>\<open>dt.strftime("%H:%M")\<close>: two digits, a colon, two digits.\<close>

definition strftime_HM :: "datetime \<Rightarrow> string" where
  "strftime_HM t =
     [digit_char (dt_hour t div 10), digit_char (dt_hour t mod 10), CHR '':'',
      digit_char (dt_minute t div 10), digit_char (dt_minute t mod 10)]"

text \<open>
  \<open>datetime.strptime(s, "%H:%M")\<close> compiles the format to the regular expression
  \<open>(2[0-3]|[0-1]\d|\d):([0-5]\d|\d)\<close>, matches it at the start of \<open>s\<close> and raises
  \<open>ValueError\<close> when nothing matches or when text remains after the match. The
  alternatives are listed in the order the matcher tries them; the match is the
  first combination that succeeds.
\<close>

definition H_alternatives :: "string \<Rightarrow> (int \<times> string) list" where
  "H_alternatives s =
     (case s of
        a # b # r \<Rightarrow>
          (if a = CHR ''2'' \<and> b \<in> set ''0123'' then [(digit_val a * 10 + digit_val b, r)] else [])
      | _ \<Rightarrow> []) @
     (case s of
        a # b # r \<Rightarrow>
          (if a \<in> set ''01'' \<and> is_digit b then [(digit_val a * 10 + digit_val b, r)] else [])
      | _ \<Rightarrow> []) @
     (case s of
        a # r \<Rightarrow> (if is_digit a then [(digit_val a, r)] else [])
      | _ \<Rightarrow> [])"

definition M_alternatives :: "string \<Rightarrow> (int \<times> string) list" where
  "M_alternatives s =
     (case s of
        a # b # r \<Rightarrow>
          (if a \<in> set ''012345'' \<and> is_digit b then [(digit_val a * 10 + digit_val b, r)] else [])
      | _ \<Rightarrow> []) @
     (case s of
        a # r \<Rightarrow> (if is_digit a then [(digit_val a, r)] else [])
      | _ \<Rightarrow> [])"

definition colon_then_M :: "string \<Rightarrow> (int \<times> string) list" where
  "colon_then_M s =
     (case s of
        c # r \<Rightarrow> (if c = CHR '':'' then M_alternatives r else [])
      | [] \<Rightarrow> [])"

definition match_HM :: "string \<Rightarrow> (int \<times> int \<times> string) option" where
  "match_HM s =
     (case concat (map (\<lambda>(h, r). map (\<lambda>(m, r'). (h, m, r')) (colon_then_M r)) (H_alternatives s)) of
        [] \<Rightarrow> None
      | x # _ \<Rightarrow> Some x)"

text \<open>\<open>None\<close> stands for the \<open>ValueError\<close>; every caller catches it.\<close>

definition strptime_HM :: "string \<Rightarrow> datetime option" where
  "strptime_HM s =
     (case match_HM s of
        None \<Rightarrow> None
      | Some (h, m, rest) \<Rightarrow>
          if rest \<noteq> [] then None
          else Some (DT_1900 + (h * 60 + m) * 60000000))"

section \<open>The schedule record\<close>

record Schedule =
  id' :: string
  name :: string
  search_terms :: "string list"
  start_time :: string
  duration_minutes :: int
  limit_per_run :: int
  skip_duplicates :: bool
  is_recurring :: bool
  is_active :: bool
  last_run :: string
  total_runs :: int
  estimated_duration_minutes :: int
  auto_sequence :: bool
  currently_running :: bool

section \<open>Input validation\<close>

definition validate_time_format :: "string \<Rightarrow> bool" where
  "validate_time_format time_str =
     (case strptime_HM time_str of Some _ \<Rightarrow> True | None \<Rightarrow> False)"

section \<open>Interval math and the conflict detector\<close>

definition quoted :: "string \<Rightarrow> string" where
  "quoted s = [CHR 0x27] @ s @ [CHR 0x27]"

text \<open>The whole body runs under a bare \<open>except: pass\<close>, so an unparseable start
  time and an overflowing end both give \<open>None\<close>.\<close>

definition check_execution_overlap :: "Schedule \<Rightarrow> Schedule \<Rightarrow> string option" where
  "check_execution_overlap schedule1 schedule2 =
     (case strptime_HM (start_time schedule1) of
        None \<Rightarrow> None
      | Some time1 \<Rightarrow>
     (case strptime_HM (start_time schedule2) of
        None \<Rightarrow> None
      | Some time2 \<Rightarrow>
     (case dt_add_minutes time1 (estimated_duration_minutes schedule1) of
        Inl _ \<Rightarrow> None
      | Inr end1 \<Rightarrow>
     (case dt_add_minutes time2 (estimated_duration_minutes schedule2) of
        Inl _ \<Rightarrow> None
      | Inr end2 \<Rightarrow>
          if (time1 \<le> time2 \<and> time2 < end1) \<or> (time2 \<le> time1 \<and> time1 < end2)
          then Some (''Execution overlap with '' @ quoted (name schedule1))
          else None))))"

text \<open>The loop of \<open>check_schedule_conflicts\<close> over \<open>self.schedules.items()\<close>, with the
  list \<open>conflicts\<close> it appends to.\<close>

fun conflicts_loop :: "(string \<times> Schedule) list \<Rightarrow> Schedule \<Rightarrow> string list \<Rightarrow> string list" where
  "conflicts_loop [] new_schedule conflicts = conflicts"
| "conflicts_loop ((existing_id, existing) # rest) new_schedule conflicts =
     (if \<not> is_active existing then conflicts_loop rest new_schedule conflicts
      else
        let conflicts1 =
              (if start_time existing = start_time new_schedule
               then conflicts @ [''Direct time conflict with '' @ quoted (name existing)
                                   @ '' at '' @ start_time existing]
               else conflicts);
            conflicts2 =
              (case check_execution_overlap existing new_schedule of
                 Some overlap \<Rightarrow> conflicts1 @ [overlap]
               | None \<Rightarrow> conflicts1)
        in conflicts_loop rest new_schedule conflicts2)"

definition check_schedule_conflicts :: "(string \<times> Schedule) list \<Rightarrow> Schedule \<Rightarrow> string list" where
  "check_schedule_conflicts items new_schedule = conflicts_loop items new_schedule []"

definition check_schedule_conflicts_between :: "Schedule \<Rightarrow> Schedule \<Rightarrow> string list" where
  "check_schedule_conflicts_between schedule1 schedule2 =
     (if start_time schedule1 = start_time schedule2 then [''Direct time conflict''] else []) @
     (case strptime_HM (start_time schedule1) of
        None \<Rightarrow> []
      | Some time1 \<Rightarrow>
     (case strptime_HM (start_time schedule2) of
        None \<Rightarrow> []
      | Some time2 \<Rightarrow>
     (case dt_add_minutes time1 (estimated_duration_minutes schedule1) of
        Inl _ \<Rightarrow> []
      | Inr end1 \<Rightarrow>
     (case dt_add_minutes time2 (estimated_duration_minutes schedule2) of
        Inl _ \<Rightarrow> []
      | Inr end2 \<Rightarrow>
          if (time1 \<le> time2 \<and> time2 < end1) \<or> (time2 \<le> time1 \<and> time1 < end2)
          then [''Execution overlap'']
          else []))))"

text \<open>The probe schedule of \<open>is_time_slot_safe\<close>; the fields it does not pass take
  the dataclass defaults.\<close>

definition temp_schedule :: "string \<Rightarrow> Schedule \<Rightarrow> Schedule" where
  "temp_schedule test_time new_schedule =
     \<lparr> id' = ''temp'', name = ''temp'',
       search_terms = search_terms new_schedule,
       start_time = test_time,
       duration_minutes = duration_minutes new_schedule,
       limit_per_run = limit_per_run new_schedule,
       skip_duplicates = skip_duplicates new_schedule,
       is_recurring = is_recurring new_schedule,
       is_active = True,
       last_run = [],
       total_runs = 0,
       estimated_duration_minutes = estimated_duration_minutes new_schedule,
       auto_sequence = False,
       currently_running = False \<rparr>"

definition is_time_slot_safe :: "(string \<times> Schedule) list \<Rightarrow> string \<Rightarrow> Schedule \<Rightarrow> bool" where
  "is_time_slot_safe items test_time new_schedule =
     (length (check_schedule_conflicts items (temp_schedule test_time new_schedule)) = 0)"

section \<open>Duration input\<close>







text \<open>\<open>s.replace(pat, '')\<close> for a non-empty \<open>pat\<close>: every non-overlapping occurrence,
  left to right, is removed.\<close>

fun str_remove :: "string \<Rightarrow> string \<Rightarrow> string" where
  "str_remove pat [] = []"
| "str_remove pat (c # cs) =
     (if pat \<noteq> [] \<and> prefix pat (c # cs)
      then str_remove pat (drop (length pat - 1) cs)
      else c # str_remove pat cs)"






section \<open>The schedule store\<close>

text \<open>
  \<open>Schedule\<close> objects are mutable and shared: the dictionary \<open>self.schedules\<close>, the
  list \<open>active_schedules\<close> of the scheduler loop and the argument of
  \<open>execute_schedule\<close> refer to the same objects. The model keeps the objects in a
  heap, and the dictionary (in insertion order) maps each key to an address. The
  file \<open>multi_schedules.json\<close> is absent, holds the records last written, or holds
  something the loader cannot turn into schedules.
\<close>

type_synonym addr = nat

datatype file_state = NoFile | Unreadable | Records "Schedule list"

record scraper =
  schedules :: "(string \<times> addr) list"
  heap :: "addr \<Rightarrow> Schedule"
  next_addr :: addr
  multi_schedules_file :: file_state

text \<open>\<open>self.schedules.items()\<close> with each object read from the heap.\<close>

definition items_of :: "scraper \<Rightarrow> (string \<times> Schedule) list" where
  "items_of st = map (\<lambda>(k, a). (k, heap st a)) (schedules st)"

text \<open>\<open>d[k] = v\<close>: an existing key keeps its position.\<close>

fun dict_set :: "('k \<times> 'v) list \<Rightarrow> 'k \<Rightarrow> 'v \<Rightarrow> ('k \<times> 'v) list" where
  "dict_set [] k v = [(k, v)]"
| "dict_set ((k', v') # rest) k v =
     (if k' = k then (k, v) # rest else (k', v') # dict_set rest k v)"

fun load_loop :: "Schedule list \<Rightarrow> scraper \<Rightarrow> scraper" where
  "load_loop [] st = st"
| "load_loop (schedule_data # rest) st =
     load_loop rest
       (st\<lparr> heap := (heap st)(next_addr st := schedule_data),
            next_addr := Suc (next_addr st),
            schedules := dict_set (schedules st) (id' schedule_data) (next_addr st) \<rparr>)"

text \<open>\<open>Unreadable\<close> covers every failure inside the \<open>try\<close>: the handler leaves an
  empty dictionary.\<close>

definition load_schedules :: "scraper \<Rightarrow> scraper" where
  "load_schedules st =
     (case multi_schedules_file st of
        NoFile \<Rightarrow> st
      | Unreadable \<Rightarrow> st\<lparr> schedules := [] \<rparr>
      | Records data \<Rightarrow> load_loop data (st\<lparr> schedules := [] \<rparr>))"

text \<open>What the file system does with one \<open>save_schedules\<close>: the write completes,
  \<open>open\<close> fails and the file stays, or \<open>json.dump\<close> fails on the truncated file.
  The handler only prints.\<close>

datatype write_result = WriteOk | OpenFailed | DumpFailed

definition save_schedules :: "write_result \<Rightarrow> scraper \<Rightarrow> scraper" where
  "save_schedules w st =
     (case w of
        WriteOk \<Rightarrow> st\<lparr> multi_schedules_file := Records (map snd (items_of st)) \<rparr>
      | OpenFailed \<Rightarrow> st
      | DumpFailed \<Rightarrow> st\<lparr> multi_schedules_file := Unreadable \<rparr>)"

section \<open>The job executor\<close>

text \<open>
  What one pass of the term loop meets: the runner returns an exit code, the inner
  \<open>try\<close> catches an \<open>Exception\<close>, or something leaves the loop (a
  \<open>KeyboardInterrupt\<close>, or an exception raised outside the inner \<open>try\<close>).
\<close>

datatype term_outcome = Returned int | Raised | Escaped

record exec_env =
  runner :: "nat \<Rightarrow> term_outcome"
  finish_stamp :: string
  first_save :: write_result
  final_save :: write_result

fun run_terms :: "(nat \<Rightarrow> term_outcome) \<Rightarrow> nat \<Rightarrow> string list \<Rightarrow> int \<Rightarrow> py_error + int" where
  "run_terms run i [] success_count = Inr success_count"
| "run_terms run i (search_term # rest) success_count =
     (case run i of
        Returned returncode \<Rightarrow>
          run_terms run (Suc i) rest
            (if returncode = 0 then success_count + 1 else success_count)
      | Raised \<Rightarrow> run_terms run (Suc i) rest success_count
      | Escaped \<Rightarrow> Inl Interrupted)"

definition set_field :: "addr \<Rightarrow> (Schedule \<Rightarrow> Schedule) \<Rightarrow> scraper \<Rightarrow> scraper" where
  "set_field a f st = st\<lparr> heap := (heap st)(a := f (heap st a)) \<rparr>"

text \<open>The result is the success count, or the exception that left the term loop;
  the \<open>finally\<close> block runs in both cases. \<open>finish_stamp\<close> is the clock reading
  \<open>datetime.now().strftime("%Y-%m-%d %H:%M:%S")\<close> taken there.\<close>

definition execute_schedule :: "exec_env \<Rightarrow> addr \<Rightarrow> scraper \<Rightarrow> (py_error + int) \<times> scraper" where
  "execute_schedule env schedule st =
     (let st1 = set_field schedule (\<lambda>s. s\<lparr> currently_running := True \<rparr>) st;
          st2 = save_schedules (first_save env) st1;
          outcome = run_terms (runner env) 1 (search_terms (heap st2 schedule)) 0;
          st3 = set_field schedule (\<lambda>s. s\<lparr> currently_running := False \<rparr>) st2;
          st4 = set_field schedule (\<lambda>s. s\<lparr> last_run := finish_stamp env \<rparr>) st3;
          st5 = set_field schedule (\<lambda>s. s\<lparr> total_runs := total_runs s + 1 \<rparr>) st4;
          st6 = set_field schedule (\<lambda>s. s\<lparr> auto_sequence := False \<rparr>) st5;
          st7 = save_schedules (final_save env) st6
      in (outcome, st7))"

section \<open>The scheduler loop\<close>

definition schedules_would_conflict_now :: "Schedule \<Rightarrow> Schedule \<Rightarrow> bool" where
  "schedules_would_conflict_now schedule1 schedule2 =
     (if currently_running schedule2 then True
      else
       (case strptime_HM (start_time schedule1) of
          None \<Rightarrow> False
        | Some time1 \<Rightarrow>
       (case strptime_HM (start_time schedule2) of
          None \<Rightarrow> False
        | Some time2 \<Rightarrow>
       (case dt_add_minutes time1 (estimated_duration_minutes schedule1) of
          Inl _ \<Rightarrow> False
        | Inr end1 \<Rightarrow>
       (case dt_add_minutes time2 (estimated_duration_minutes schedule2) of
          Inl _ \<Rightarrow> False
        | Inr end2 \<Rightarrow>
            (time1 \<le> time2 \<and> time2 < end1) \<or> (time2 \<le> time1 \<and> time1 < end2))))))"

text \<open>
  One tick reads the clock once for \<open>current_time\<close>. The recurring test parses
  \<open>last_run\<close> and reads the clock again under a bare \<open>except\<close>; its outcome for a
  schedule is an input, \<open>recurring_due\<close>. \<open>exec_envs\<close> gives the surroundings of
  the execution started at each position of \<open>active_schedules\<close>.
\<close>

record tick_env =
  tick_now :: datetime
  recurring_due :: "Schedule \<Rightarrow> bool"
  exec_envs :: "nat \<Rightarrow> exec_env"

definition first_run_due :: "tick_env \<Rightarrow> Schedule \<Rightarrow> bool" where
  "first_run_due env schedule =
     (total_runs schedule = 0 \<and> strftime_HM (tick_now env) = start_time schedule)"

definition should_run :: "tick_env \<Rightarrow> Schedule \<Rightarrow> bool" where
  "should_run env schedule =
     (if first_run_due env schedule then True
      else if is_recurring schedule \<and> last_run schedule \<noteq> [] then recurring_due env schedule
      else False)"

datatype decision = AlreadyRunning | NotDue | Waiting | Queued | Dispatched

definition decide :: "tick_env \<Rightarrow> addr list \<Rightarrow> scraper \<Rightarrow> addr \<Rightarrow> decision" where
  "decide env running_schedules st schedule =
     (if currently_running (heap st schedule) then AlreadyRunning
      else if \<not> should_run env (heap st schedule) then NotDue
      else if auto_sequence (heap st schedule) \<and> running_schedules \<noteq> [] then Waiting
      else if list_ex (\<lambda>running_schedule.
                 schedules_would_conflict_now (heap st schedule) (heap st running_schedule))
               running_schedules then Queued
      else Dispatched)"

text \<open>The \<open>for\<close> loop of one tick over \<open>active_schedules\<close>, from position \<open>i\<close>. It
  returns, for every schedule it reached, the decision and the state the decision
  was taken in, then the exception that ended the loop (if any) and the final
  state.\<close>

fun tick_loop ::
  "tick_env \<Rightarrow> addr list \<Rightarrow> nat \<Rightarrow> addr list \<Rightarrow> scraper
     \<Rightarrow> (addr \<times> decision \<times> scraper) list \<times> py_error option \<times> scraper" where
  "tick_loop env running_schedules i [] st = ([], None, st)"
| "tick_loop env running_schedules i (schedule # rest) st =
     (case decide env running_schedules st schedule of
        Dispatched \<Rightarrow>
          (case execute_schedule (exec_envs env i) schedule st of
             (Inl e, st') \<Rightarrow> ([(schedule, Dispatched, st)], Some e, st')
           | (Inr _, st') \<Rightarrow>
               (case tick_loop env running_schedules (Suc i) rest st' of
                  (trace, r, st'') \<Rightarrow> ((schedule, Dispatched, st) # trace, r, st'')))
      | d \<Rightarrow>
          (case tick_loop env running_schedules (Suc i) rest st of
             (trace, r, st'') \<Rightarrow> ((schedule, d, st) # trace, r, st'')))"

definition tick ::
  "tick_env \<Rightarrow> addr list \<Rightarrow> scraper
     \<Rightarrow> (addr \<times> decision \<times> scraper) list \<times> py_error option \<times> scraper" where
  "tick env active_schedules st =
     tick_loop env (filter (\<lambda>s. currently_running (heap st s)) active_schedules)
       0 active_schedules st"

text \<open>\<open>active_schedules\<close> as \<open>start_scheduler\<close> builds it before the loop.\<close>

definition active_schedules_of :: "scraper \<Rightarrow> addr list" where
  "active_schedules_of st = filter (\<lambda>a. is_active (heap st a)) (map snd (schedules st))"

section \<open>The sequencer\<close>



section \<open>The safe-time suggester\<close>

fun earliest_conflict_loop :: "Schedule list \<Rightarrow> datetime option \<Rightarrow> datetime option" where
  "earliest_conflict_loop [] earliest_conflict = earliest_conflict"
| "earliest_conflict_loop (conflict_schedule # rest) earliest_conflict =
     (case strptime_HM (start_time conflict_schedule) of
        None \<Rightarrow> earliest_conflict_loop rest earliest_conflict
      | Some conflict_time \<Rightarrow>
          earliest_conflict_loop rest
            (case earliest_conflict of
               None \<Rightarrow> Some conflict_time
             | Some e \<Rightarrow> if conflict_time < e then Some conflict_time else Some e))"

text \<open>One pass of the \<open>while\<close> loop of \<open>find_slots_before_conflicts\<close>: the new
  \<open>checking_time\<close> and \<open>before_slots\<close>.\<close>

definition before_step ::
  "(string \<times> Schedule) list \<Rightarrow> Schedule \<Rightarrow> datetime \<Rightarrow> string list
     \<Rightarrow> py_error + (datetime \<times> string list)" where
  "before_step items new_schedule checking_time before_slots =
     (let minute = dt_minute checking_time in
      case (if minute < 15 then Inr (0, checking_time)
            else if minute < 45 then Inr (30, checking_time)
            else (case dt_add_minutes checking_time 60 of
                    Inl e \<Rightarrow> Inl e
                  | Inr t \<Rightarrow> Inr (0, t))) of
        Inl e \<Rightarrow> Inl e
      | Inr (rounded_minute, checking_time1) \<Rightarrow>
          let time_str = strftime_HM (replace_minute_second0 checking_time1 rounded_minute);
              before_slots1 =
                (if is_time_slot_safe items time_str new_schedule
                 then before_slots @ [time_str] else before_slots)
          in (case dt_add_minutes checking_time1 30 of
                Inl e \<Rightarrow> Inl e
              | Inr checking_time2 \<Rightarrow> Inr (checking_time2, before_slots1)))"

function before_loop ::
  "(string \<times> Schedule) list \<Rightarrow> Schedule \<Rightarrow> datetime \<Rightarrow> datetime \<Rightarrow> string list
     \<Rightarrow> py_error + string list" where
  "before_loop items new_schedule latest_start checking_time before_slots =
     (if checking_time \<le> latest_start \<and> length before_slots < 4 then
        (case before_step items new_schedule checking_time before_slots of
           Inl e \<Rightarrow> Inl e
         | Inr (checking_time', before_slots') \<Rightarrow>
             before_loop items new_schedule latest_start checking_time' before_slots')
      else Inr before_slots)"
  by pat_completeness auto
termination
  by (relation "measure (\<lambda>(items, new_schedule, latest_start, checking_time, before_slots).
        nat (latest_start - checking_time + 1))")
     (auto simp: before_step_def dt_add_minutes_def Let_def split: if_splits sum.splits)

declare before_loop.simps [simp del]

definition find_slots_before_conflicts ::
  "(string \<times> Schedule) list \<Rightarrow> Schedule \<Rightarrow> Schedule list \<Rightarrow> datetime \<Rightarrow> py_error + string list" where
  "find_slots_before_conflicts items new_schedule conflicting_schedules current_time =
     (if conflicting_schedules = [] then Inr []
      else
       (case earliest_conflict_loop conflicting_schedules None of
          None \<Rightarrow> Inr []
        | Some earliest_conflict \<Rightarrow>
       (case dt_add_minutes earliest_conflict
               (- (estimated_duration_minutes new_schedule + 10)) of
          Inl e \<Rightarrow> Inl e
        | Inr latest_start \<Rightarrow>
       (case dt_add_minutes current_time 5 of
          Inl e \<Rightarrow> Inl e
        | Inr current_plus_buffer \<Rightarrow>
            if latest_start > current_plus_buffer then
              before_loop items new_schedule latest_start
                (max current_plus_buffer (replace_minute_second0 current_time 0)) []
            else Inr []))))"

fun latest_conflict_end_loop :: "Schedule list \<Rightarrow> datetime option \<Rightarrow> datetime option" where
  "latest_conflict_end_loop [] latest_end = latest_end"
| "latest_conflict_end_loop (conflict_schedule # rest) latest_end =
     (case strptime_HM (start_time conflict_schedule) of
        None \<Rightarrow> latest_conflict_end_loop rest latest_end
      | Some conflict_start \<Rightarrow>
     (case dt_add_minutes conflict_start (estimated_duration_minutes conflict_schedule) of
        Inl _ \<Rightarrow> latest_conflict_end_loop rest latest_end
      | Inr conflict_end \<Rightarrow>
          latest_conflict_end_loop rest
            (case latest_end of
               None \<Rightarrow> Some conflict_end
             | Some l \<Rightarrow> if conflict_end > l then Some conflict_end else Some l)))"

text \<open>One pass of the \<open>while\<close> loop of \<open>find_slots_after_conflicts\<close>; from minute 45
  on it only moves \<open>checking_time\<close> one hour on (\<open>continue\<close>).\<close>

definition after_step ::
  "(string \<times> Schedule) list \<Rightarrow> Schedule \<Rightarrow> datetime \<Rightarrow> string list
     \<Rightarrow> py_error + (datetime \<times> string list)" where
  "after_step items new_schedule checking_time after_slots =
     (let minute = dt_minute checking_time in
      if minute < 45 then
        let rounded_minute = (if minute < 15 then 0 else 30);
            time_str = strftime_HM (replace_minute_second0 checking_time rounded_minute);
            after_slots1 =
              (if is_time_slot_safe items time_str new_schedule
               then after_slots @ [time_str] else after_slots)
        in (case dt_add_minutes checking_time 30 of
              Inl e \<Rightarrow> Inl e
            | Inr checking_time2 \<Rightarrow> Inr (checking_time2, after_slots1))
      else
        (case dt_add_minutes checking_time 60 of
           Inl e \<Rightarrow> Inl e
         | Inr checking_time1 \<Rightarrow> Inr (checking_time1, after_slots)))"

function after_loop ::
  "(string \<times> Schedule) list \<Rightarrow> Schedule \<Rightarrow> datetime \<Rightarrow> datetime \<Rightarrow> string list
     \<Rightarrow> py_error + string list" where
  "after_loop items new_schedule end_of_day checking_time after_slots =
     (if checking_time \<le> end_of_day \<and> length after_slots < 4 then
        (case after_step items new_schedule checking_time after_slots of
           Inl e \<Rightarrow> Inl e
         | Inr (checking_time', after_slots') \<Rightarrow>
             after_loop items new_schedule end_of_day checking_time' after_slots')
      else Inr after_slots)"
  by pat_completeness auto
termination
  by (relation "measure (\<lambda>(items, new_schedule, end_of_day, checking_time, after_slots).
        nat (end_of_day - checking_time + 1))")
     (auto simp: after_step_def dt_add_minutes_def Let_def split: if_splits sum.splits)

declare after_loop.simps [simp del]

text \<open>\<open>end_clock\<close> is the clock reading behind \<open>end_of_day\<close>; it carries today's
  date, while \<open>checking_time\<close> starts on 1900-01-01.\<close>

definition find_slots_after_conflicts ::
  "(string \<times> Schedule) list \<Rightarrow> Schedule \<Rightarrow> Schedule list \<Rightarrow> datetime \<Rightarrow> py_error + string list" where
  "find_slots_after_conflicts items new_schedule conflicting_schedules end_clock =
     (if conflicting_schedules = [] then Inr []
      else
       (case latest_conflict_end_loop conflicting_schedules None of
          None \<Rightarrow> Inr []
        | Some latest_end \<Rightarrow>
       (case dt_add_minutes latest_end 10 of
          Inl e \<Rightarrow> Inl e
        | Inr earliest_after \<Rightarrow>
            after_loop items new_schedule (replace_hour_minute_second0 end_clock 22 0)
              earliest_after [])))"

fun fallback_loop ::
  "(string \<times> Schedule) list \<Rightarrow> Schedule \<Rightarrow> datetime list \<Rightarrow> string list \<Rightarrow> string list" where
  "fallback_loop items new_schedule [] fallback_slots = fallback_slots"
| "fallback_loop items new_schedule (base_time # rest) fallback_slots =
     (if 6 \<le> dt_hour base_time \<and> dt_hour base_time \<le> 22 then
        let minute = (if dt_minute base_time < 30 then 0 else 30);
            time_str = strftime_HM (replace_minute_second0 base_time minute)
        in fallback_loop items new_schedule rest
             (if is_time_slot_safe items time_str new_schedule
              then fallback_slots @ [time_str] else fallback_slots)
      else fallback_loop items new_schedule rest fallback_slots)"

definition find_fallback_slots ::
  "(string \<times> Schedule) list \<Rightarrow> Schedule \<Rightarrow> datetime \<Rightarrow> py_error + string list" where
  "find_fallback_slots items new_schedule current_time =
     (case dt_add_minutes current_time 60 of
        Inl e \<Rightarrow> Inl e
      | Inr b1 \<Rightarrow>
     (case dt_add_minutes current_time 120 of
        Inl e \<Rightarrow> Inl e
      | Inr b2 \<Rightarrow>
     (case dt_add_minutes current_time 180 of
        Inl e \<Rightarrow> Inl e
      | Inr b3 \<Rightarrow>
     (case (if dt_hour current_time > 7 then dt_add_minutes current_time (- 60)
            else dt_add_minutes current_time 240) of
        Inl e \<Rightarrow> Inl e
      | Inr b4 \<Rightarrow> Inr (fallback_loop items new_schedule [b1, b2, b3, b4] [])))))"

text \<open>\<open>list(dict.fromkeys(xs))\<close>: the keys in first-seen order.\<close>

fun fromkeys_loop :: "'a list \<Rightarrow> 'a list \<Rightarrow> 'a list" where
  "fromkeys_loop keys [] = keys"
| "fromkeys_loop keys (x # xs) =
     fromkeys_loop (if x \<in> set keys then keys else keys @ [x]) xs"

text \<open>The sort key; both times are whole minutes of 1900-01-01, so the quotient is
  exact.\<close>

definition time_distance :: "datetime \<Rightarrow> string \<Rightarrow> int" where
  "time_distance current_time time_str =
     (case strptime_HM time_str of
        None \<Rightarrow> 9999
      | Some test_time \<Rightarrow>
          let diff = \<bar>test_time - current_time\<bar> div 60000000
          in if test_time > current_time then diff else diff + 30)"

definition sort_by_time_proximity :: "string list \<Rightarrow> string \<Rightarrow> string list" where
  "sort_by_time_proximity time_list current_time_str =
     (case strptime_HM current_time_str of
        None \<Rightarrow> time_list
      | Some current_time \<Rightarrow> sort_key (time_distance current_time) time_list)"

text \<open>\<open>current_time\<close> is the clock reading at entry, \<open>end_clock\<close> the later one of
  \<open>find_slots_after_conflicts\<close>.\<close>

definition get_safe_time_suggestions ::
  "datetime \<Rightarrow> datetime \<Rightarrow> (string \<times> Schedule) list \<Rightarrow> Schedule \<Rightarrow> py_error + string list" where
  "get_safe_time_suggestions current_time end_clock items new_schedule =
     (let current_hour_minute = strftime_HM current_time;
          conflicting_schedules =
            map snd (filter (\<lambda>(existing_id, existing).
                       is_active existing
                       \<and> check_schedule_conflicts_between new_schedule existing \<noteq> []) items)
      in
       (case find_slots_before_conflicts items new_schedule conflicting_schedules current_time of
          Inl e \<Rightarrow> Inl e
        | Inr before_slots \<Rightarrow>
       (case find_slots_after_conflicts items new_schedule conflicting_schedules end_clock of
          Inl e \<Rightarrow> Inl e
        | Inr after_slots \<Rightarrow>
       (case (if length (before_slots @ after_slots) < 3
              then find_fallback_slots items new_schedule current_time else Inr []) of
          Inl e \<Rightarrow> Inl e
        | Inr fallback_slots \<Rightarrow>
            Inr (take 8 (sort_by_time_proximity
                           (fromkeys_loop [] (before_slots @ after_slots @ fallback_slots))
                           current_hour_minute))))))"

section \<open>Specification-level notions and example data\<close>

text \<open>The records one active stored schedule contributes to the conflict list: the
  direct time conflict first, then the execution overlap.\<close>

definition conflict_records :: "Schedule \<Rightarrow> Schedule \<Rightarrow> string list" where
  "conflict_records existing new_schedule =
     (if start_time existing = start_time new_schedule
      then [''Direct time conflict with '' @ quoted (name existing) @ '' at '' @ start_time existing]
      else []) @
     (case check_execution_overlap existing new_schedule of
        Some overlap \<Rightarrow> [overlap]
      | None \<Rightarrow> [])"

text \<open>An active one-time schedule with one search term, as \<open>quick_schedule_setup\<close>
  builds it: id, name, start time, estimated duration.\<close>

definition example_schedule :: "string \<Rightarrow> string \<Rightarrow> string \<Rightarrow> int \<Rightarrow> Schedule" where
  "example_schedule i n t est =
     \<lparr> id' = i, name = n, search_terms = [''cafe''], start_time = t,
       duration_minutes = 0, limit_per_run = 100, skip_duplicates = True,
       is_recurring = False, is_active = True, last_run = [], total_runs = 0,
       estimated_duration_minutes = est, auto_sequence = False,
       currently_running = False \<rparr>"

text \<open>The scraper right after \<open>__init__\<close> has set \<open>self.schedules = {}\<close>, with the
  given file on disk.\<close>

definition fresh_scraper :: "file_state \<Rightarrow> scraper" where
  "fresh_scraper f =
     \<lparr> schedules = [], heap = (\<lambda>_. example_schedule [] [] [] 15),
       next_addr = 0, multi_schedules_file = f \<rparr>"

text \<open>A store of two active schedules: \<open>R\<close> is marked running, \<open>W\<close> is due at 09:00
  with \<open>auto_sequence\<close> set.\<close>

definition waiting_state :: scraper where
  "waiting_state =
     \<lparr> schedules = [(''r'', 0), (''w'', 1)],
       heap = (\<lambda>a. if a = 0
                   then (example_schedule ''r'' ''R'' ''08:00'' 30)\<lparr>currently_running := True\<rparr>
                   else (example_schedule ''w'' ''W'' ''09:00'' 30)\<lparr>auto_sequence := True\<rparr>),
       next_addr = 2, multi_schedules_file = NoFile \<rparr>"

text \<open>A tick at 09:00 on 1900-01-01.\<close>

definition waiting_env :: tick_env where
  "waiting_env =
     \<lparr> tick_now = 59926640400000000, recurring_due = (\<lambda>_. False),
       exec_envs = (\<lambda>_. \<lparr> runner = (\<lambda>_. Returned 0), finish_stamp = ''1900-01-01 09:00:05'',
                          first_save = WriteOk, final_save = WriteOk \<rparr>) \<rparr>"



text \<open>The list \<open>conflicting_schedules\<close> that \<open>get_safe_time_suggestions\<close> builds.\<close>

definition conflicting_of :: "(string \<times> Schedule) list \<Rightarrow> Schedule \<Rightarrow> Schedule list" where
  "conflicting_of items new_schedule =
     map snd (filter (\<lambda>(existing_id, existing). is_active existing
           \<and> check_schedule_conflicts_between new_schedule existing \<noteq> []) items)"



section \<open>Parsing and formatting times\<close>

lemmas strptime_defs = strptime_HM_def match_HM_def H_alternatives_def colon_then_M_def
  M_alternatives_def is_digit_def digit_val_def DT_1900_def

lemma strptime_0900: "strptime_HM ''09:00'' = Some 59926640400000000"
  by (simp add: strptime_defs)

text \<open>
  Claim C10. The start time \<open>9:30\<close> passes \<open>validate_time_format\<close>, yet no clock
  reading formats to it: \<open>strftime("%H:%M")\<close> always pads the hour to two digits.
  So for a schedule with that start time and no run so far, the first-run test of
  the scheduler loop fails at every tick.
\<close>

theorem unpadded_start_time_never_first_run_due:
  "validate_time_format ''9:30''
   \<and> (\<forall>t. strftime_HM t \<noteq> ''9:30'')
   \<and> (\<forall>env s. \<not> first_run_due env (s\<lparr>start_time := ''9:30'', total_runs := 0\<rparr>))"
  by (simp add: validate_time_format_def strptime_defs strftime_HM_def first_run_due_def)

section \<open>Touching windows\<close>

text \<open>
  Claim C7, as stated, fails for a first window of length zero: with \<open>A\<close> at 09:00
  for 0 minutes and \<open>B\<close> at 09:00 for 30 minutes, \<open>A\<close> ends exactly where \<open>B\<close> starts
  and the test reports an overlap.
\<close>

theorem touching_empty_window_overlaps:
  "strptime_HM (start_time (example_schedule ''a'' ''A'' ''09:00'' 0)) = Some 59926640400000000
   \<and> strptime_HM (start_time (example_schedule ''b'' ''B'' ''09:00'' 30)) = Some 59926640400000000
   \<and> dt_add_minutes 59926640400000000
        (estimated_duration_minutes (example_schedule ''a'' ''A'' ''09:00'' 0))
       = Inr 59926640400000000
   \<and> check_execution_overlap (example_schedule ''a'' ''A'' ''09:00'' 0)
        (example_schedule ''b'' ''B'' ''09:00'' 30)
       = Some (''Execution overlap with '' @ quoted ''A'')"
  by (simp add: example_schedule_def strptime_0900 check_execution_overlap_def
        dt_add_minutes_def DT_LIMIT_def)

text \<open>
  Claim C7, amended. For schedules \<open>a\<close> and \<open>b\<close> with parseable start times, if
  \<open>a\<close> lasts at least one minute and ends exactly where \<open>b\<close> starts, the overlap
  test reports no overlap, whichever of the two is passed first.
\<close>

theorem touching_windows_do_not_overlap:
  assumes "strptime_HM (start_time a) = Some t1"
    and "strptime_HM (start_time b) = Some t2"
    and "1 \<le> estimated_duration_minutes a"
    and "dt_add_minutes t1 (estimated_duration_minutes a) = Inr t2"
  shows "check_execution_overlap a b = None \<and> check_execution_overlap b a = None"
  using assms
  by (auto simp: check_execution_overlap_def dt_add_minutes_def Let_def
           split: sum.splits if_splits)

theorem touching_windows_witness:
  "strptime_HM (start_time (example_schedule ''a'' ''A'' ''09:00'' 30)) = Some 59926640400000000
   \<and> strptime_HM (start_time (example_schedule ''b'' ''B'' ''09:30'' 30)) = Some 59926642200000000
   \<and> (1::int) \<le> estimated_duration_minutes (example_schedule ''a'' ''A'' ''09:00'' 30)
   \<and> dt_add_minutes 59926640400000000
        (estimated_duration_minutes (example_schedule ''a'' ''A'' ''09:00'' 30))
       = Inr 59926642200000000
   \<and> check_execution_overlap (example_schedule ''a'' ''A'' ''09:00'' 30)
        (example_schedule ''b'' ''B'' ''09:30'' 30) = None
   \<and> check_execution_overlap (example_schedule ''b'' ''B'' ''09:30'' 30)
        (example_schedule ''a'' ''A'' ''09:00'' 30) = None"
proof -
  let ?a = "example_schedule ''a'' ''A'' ''09:00'' 30"
  let ?b = "example_schedule ''b'' ''B'' ''09:30'' 30"
  have h1: "strptime_HM (start_time ?a) = Some 59926640400000000"
    by (simp add: example_schedule_def strptime_defs)
  have h2: "strptime_HM (start_time ?b) = Some 59926642200000000"
    by (simp add: example_schedule_def strptime_defs)
  have h3: "(1::int) \<le> estimated_duration_minutes ?a"
    by (simp add: example_schedule_def)
  have h4: "dt_add_minutes 59926640400000000 (estimated_duration_minutes ?a)
              = Inr 59926642200000000"
    by (simp add: example_schedule_def dt_add_minutes_def DT_LIMIT_def)
  from touching_windows_do_not_overlap [OF h1 h2 h3 h4] h1 h2 h3 h4
  show ?thesis by simp
qed

section \<open>The conflict detector and the candidate itself\<close>

lemma conflicts_loop_closed:
  "conflicts_loop items new_schedule acc =
     acc @ concat (map (\<lambda>(k, e). conflict_records e new_schedule)
                    (filter (\<lambda>(k, e). is_active e) items))"
  by (induction items new_schedule acc rule: conflicts_loop.induct)
     (auto simp: conflict_records_def Let_def split: option.splits)

text \<open>
  Claim C3, as stated, fails: the detector has no identity test. Run on a store
  that holds the candidate itself, active, it reports the candidate as in direct
  conflict with itself and as overlapping itself.
\<close>

theorem candidate_in_store_conflicts_with_itself:
  "check_schedule_conflicts [(''x'', example_schedule ''x'' ''X'' ''09:00'' 30)]
     (example_schedule ''x'' ''X'' ''09:00'' 30)
   = [''Direct time conflict with '' @ quoted ''X'' @ '' at 09:00'',
      ''Execution overlap with '' @ quoted ''X'']"
  by (simp add: check_schedule_conflicts_def example_schedule_def strptime_0900
        check_execution_overlap_def dt_add_minutes_def DT_LIMIT_def)

text \<open>
  Claim C3, amended. \<open>check_schedule_conflicts\<close> skips inactive schedules and
  emits, in store order, the records of every active stored schedule, whatever its
  id. So the candidate is not compared against itself only when no active stored
  schedule carries the candidate's id (as at every call site, where the candidate
  is not yet in the store): then dropping the entries with that id changes nothing.
\<close>

theorem check_schedule_conflicts_active_entries:
  "check_schedule_conflicts items new_schedule =
     concat (map (\<lambda>(k, e). conflict_records e new_schedule)
              (filter (\<lambda>(k, e). is_active e) items))
   \<and> ((\<forall>(k, e) \<in> set items. is_active e \<longrightarrow> id' e \<noteq> id' new_schedule) \<longrightarrow>
        check_schedule_conflicts (filter (\<lambda>(k, e). id' e \<noteq> id' new_schedule) items) new_schedule
          = check_schedule_conflicts items new_schedule)"
proof -
  have "filter (\<lambda>(k, e). is_active e) (filter (\<lambda>(k, e). id' e \<noteq> id' new_schedule) items)
        = filter (\<lambda>(k, e). is_active e) items"
    if "\<forall>(k, e) \<in> set items. is_active e \<longrightarrow> id' e \<noteq> id' new_schedule"
    using that by (induction items) auto
  then show ?thesis
    by (simp add: check_schedule_conflicts_def conflicts_loop_closed)
qed

theorem check_schedule_conflicts_active_entries_witness:
  "check_schedule_conflicts
      [(''x'', example_schedule ''x'' ''X'' ''09:00'' 30),
       (''z'', (example_schedule ''z'' ''Z'' ''09:00'' 30)\<lparr>is_active := False\<rparr>)]
      (example_schedule ''y'' ''Y'' ''09:10'' 30)
     = [''Execution overlap with '' @ quoted ''X'']
   \<and> check_schedule_conflicts
      (filter (\<lambda>(k, e). id' e \<noteq> id' (example_schedule ''y'' ''Y'' ''09:10'' 30))
        [(''x'', example_schedule ''x'' ''X'' ''09:00'' 30),
         (''z'', (example_schedule ''z'' ''Z'' ''09:00'' 30)\<lparr>is_active := False\<rparr>)])
      (example_schedule ''y'' ''Y'' ''09:10'' 30)
     = [''Execution overlap with '' @ quoted ''X'']"
proof -
  let ?items = "[(''x'', example_schedule ''x'' ''X'' ''09:00'' 30),
       (''z'', (example_schedule ''z'' ''Z'' ''09:00'' 30)\<lparr>is_active := False\<rparr>)]"
  let ?y = "example_schedule ''y'' ''Y'' ''09:10'' 30"
  have h: "\<forall>(k, e) \<in> set ?items. is_active e \<longrightarrow> id' e \<noteq> id' ?y"
    by (simp add: example_schedule_def)
  have c: "concat (map (\<lambda>(k, e). conflict_records e ?y) (filter (\<lambda>(k, e). is_active e) ?items))
      = [''Execution overlap with '' @ quoted ''X'']"
    by (simp add: example_schedule_def conflict_records_def check_execution_overlap_def
          strptime_defs dt_add_minutes_def DT_LIMIT_def)
  from check_schedule_conflicts_active_entries [of ?items ?y] h c
  show ?thesis by simp
qed

section \<open>Loading the store\<close>

lemma dict_set_fresh: "k \<notin> fst ` set d \<Longrightarrow> dict_set d k v = d @ [(k, v)]"
  by (induction d) auto

lemma load_loop_items:
  assumes "\<forall>(k, a) \<in> set (schedules st). a < next_addr st"
    and "distinct (map fst (schedules st) @ map id' data)"
  shows "items_of (load_loop data st) = items_of st @ map (\<lambda>r. (id' r, r)) data"
  using assms
proof (induction data arbitrary: st)
  case Nil
  then show ?case by simp
next
  case (Cons r rest)
  let ?st1 = "st\<lparr> heap := (heap st)(next_addr st := r), next_addr := Suc (next_addr st),
                   schedules := dict_set (schedules st) (id' r) (next_addr st) \<rparr>"
  from Cons.prems have fresh: "id' r \<notin> fst ` set (schedules st)" by auto
  then have sch: "schedules ?st1 = schedules st @ [(id' r, next_addr st)]"
    by (simp add: dict_set_fresh)
  have old: "map (\<lambda>(k, a). (k, ((heap st)(next_addr st := r)) a)) (schedules st)
               = map (\<lambda>(k, a). (k, heap st a)) (schedules st)"
    using Cons.prems(1) by (intro map_cong) auto
  have it: "items_of ?st1 = items_of st @ [(id' r, r)]"
    using sch old by (simp add: items_of_def)
  have p1: "\<forall>(k, a) \<in> set (schedules ?st1). a < next_addr ?st1"
    using Cons.prems(1) sch by (auto simp: less_Suc_eq)
  have p2: "distinct (map fst (schedules ?st1) @ map id' rest)"
    using Cons.prems(2) sch by auto
  from Cons.IH [OF p1 p2] it show ?case by simp
qed

text \<open>
  Claim C2, as stated, fails: \<open>load_schedules\<close> builds each schedule from its
  persisted record and resets nothing. A record written with
  \<open>currently_running = true\<close> is running in the loaded store.
\<close>

theorem stale_running_flag_survives_load:
  "map (\<lambda>(k, s). (k, currently_running s))
     (items_of (load_schedules (fresh_scraper
        (Records [(example_schedule ''x'' ''X'' ''09:00'' 30)\<lparr>currently_running := True\<rparr>]))))
   = [(''x'', True)]"
  by (simp add: load_schedules_def fresh_scraper_def items_of_def example_schedule_def)

text \<open>
  Claim C2, amended. When the file holds records with distinct ids,
  \<open>load_schedules\<close> restores exactly these records, in file order and under their
  ids, with every field as persisted; in particular each schedule's
  \<open>currently_running\<close> flag is the persisted one.
\<close>

theorem load_schedules_restores_records:
  assumes "multi_schedules_file st = Records data" and "distinct (map id' data)"
  shows "items_of (load_schedules st) = map (\<lambda>r. (id' r, r)) data
     \<and> map (\<lambda>(k, s). currently_running s) (items_of (load_schedules st)) = map currently_running data"
proof -
  have "items_of (load_loop data (st\<lparr>schedules := []\<rparr>)) = items_of (st\<lparr>schedules := []\<rparr>) @ map (\<lambda>r. (id' r, r)) data"
    by (rule load_loop_items) (use assms in simp_all)
  then have "items_of (load_schedules st) = map (\<lambda>r. (id' r, r)) data"
    using assms(1) by (simp add: load_schedules_def items_of_def)
  then show ?thesis by (simp add: comp_def)
qed

theorem load_schedules_restores_records_witness:
  "multi_schedules_file (fresh_scraper
        (Records [(example_schedule ''x'' ''X'' ''09:00'' 30)\<lparr>currently_running := True\<rparr>,
                  example_schedule ''y'' ''Y'' ''10:00'' 30]))
     = Records [(example_schedule ''x'' ''X'' ''09:00'' 30)\<lparr>currently_running := True\<rparr>,
                  example_schedule ''y'' ''Y'' ''10:00'' 30]
   \<and> distinct (map id' [(example_schedule ''x'' ''X'' ''09:00'' 30)\<lparr>currently_running := True\<rparr>,
                  example_schedule ''y'' ''Y'' ''10:00'' 30])
   \<and> map (\<lambda>(k, s). currently_running s) (items_of (load_schedules (fresh_scraper
        (Records [(example_schedule ''x'' ''X'' ''09:00'' 30)\<lparr>currently_running := True\<rparr>,
                  example_schedule ''y'' ''Y'' ''10:00'' 30]))))
     = [True, False]"
proof -
  let ?data = "[(example_schedule ''x'' ''X'' ''09:00'' 30)\<lparr>currently_running := True\<rparr>,
                  example_schedule ''y'' ''Y'' ''10:00'' 30]"
  have h1: "multi_schedules_file (fresh_scraper (Records ?data)) = Records ?data"
    by (simp add: fresh_scraper_def)
  have h2: "distinct (map id' ?data)"
    by (simp add: example_schedule_def)
  have v: "map currently_running ?data = [True, False]"
    by (simp add: example_schedule_def)
  from load_schedules_restores_records [OF h1 h2] h1 h2 v show ?thesis by simp
qed

section \<open>The job executor's exit\<close>

lemma set_field_heap: "heap (set_field a f st) b = (if b = a then f (heap st a) else heap st b)"
  by (simp add: set_field_def)

lemma set_field_other: "schedules (set_field a f st) = schedules st"
  "multi_schedules_file (set_field a f st) = multi_schedules_file st"
  "next_addr (set_field a f st) = next_addr st"
  by (simp_all add: set_field_def)

lemma save_schedules_keeps: "heap (save_schedules w st) = heap st"
  "schedules (save_schedules w st) = schedules st"
  by (cases w; simp add: save_schedules_def)+



lemma execute_schedule_heap:
  "heap (snd (execute_schedule env a st)) b =
     (if b = a then (heap st a)\<lparr> currently_running := False, last_run := finish_stamp env,
                       total_runs := total_runs (heap st a) + 1, auto_sequence := False \<rparr>
      else heap st b)"
  by (simp add: execute_schedule_def Let_def set_field_heap save_schedules_keeps)

lemma execute_schedule_schedules: "schedules (snd (execute_schedule env a st)) = schedules st"
  by (simp add: execute_schedule_def Let_def set_field_other save_schedules_keeps)



section \<open>Auto-sequenced schedules in the scheduler loop\<close>

lemma decide_dispatched_idle:
  "decide env running st a = Dispatched \<Longrightarrow> \<not> currently_running (heap st a)"
  by (simp add: decide_def split: if_splits)

lemma tick_loop_trace:
  assumes "\<forall>b\<in>set active. currently_running (heap st b) = (b \<in> set running)"
    and "set rest \<subseteq> set active"
    and "(a, d, st0) \<in> set (fst (tick_loop env running i rest st))"
  shows "d = decide env running st0 a
         \<and> (\<forall>b\<in>set active. currently_running (heap st0 b) = (b \<in> set running))"
  using assms
proof (induction rest arbitrary: i st)
  case Nil
  then show ?case by simp
next
  case (Cons s rest)
  show ?case
  proof (cases "decide env running st s = Dispatched")
    case True
    obtain r st' where ex: "execute_schedule (exec_envs env i) s st = (r, st')"
      by (cases "execute_schedule (exec_envs env i) s st")
    have idle: "\<not> currently_running (heap st s)"
      using True by (rule decide_dispatched_idle)
    have s_act: "s \<in> set active" using Cons.prems(2) by simp
    have inv': "\<forall>b\<in>set active. currently_running (heap st' b) = (b \<in> set running)"
    proof
      fix b assume b: "b \<in> set active"
      have "heap st' b = heap (snd (execute_schedule (exec_envs env i) s st)) b"
        using ex by simp
      then show "currently_running (heap st' b) = (b \<in> set running)"
        using Cons.prems(1) b idle s_act by (auto simp: execute_schedule_heap)
    qed
    show ?thesis
    proof (cases r)
      case (Inl e)
      with True ex Cons.prems(3) have "(a, d, st0) = (s, Dispatched, st)" by simp
      with True Cons.prems(1) show ?thesis by simp
    next
      case (Inr n)
      with True ex Cons.prems(3)
      have "(a, d, st0) = (s, Dispatched, st)
            \<or> (a, d, st0) \<in> set (fst (tick_loop env running (Suc i) rest st'))"
        by (auto split: prod.splits)
      then show ?thesis
      proof
        assume "(a, d, st0) = (s, Dispatched, st)"
        with True Cons.prems(1) show ?thesis by simp
      next
        assume "(a, d, st0) \<in> set (fst (tick_loop env running (Suc i) rest st'))"
        from Cons.IH [OF inv' _ this] Cons.prems(2) show ?thesis by simp
      qed
    qed
  next
    case False
    with Cons.prems(3)
    have "(a, d, st0) = (s, decide env running st s, st)
          \<or> (a, d, st0) \<in> set (fst (tick_loop env running (Suc i) rest st))"
      by (cases "decide env running st s") (auto split: prod.splits)
    then show ?thesis
    proof
      assume "(a, d, st0) = (s, decide env running st s, st)"
      with Cons.prems(1) show ?thesis by simp
    next
      assume "(a, d, st0) \<in> set (fst (tick_loop env running (Suc i) rest st))"
      from Cons.IH [OF Cons.prems(1) _ this] Cons.prems(2) show ?thesis by simp
    qed
  qed
qed

text \<open>
  Claim C8. In every tick, when the loop reaches a schedule that has
  \<open>auto_sequence\<close> set while another active schedule is running, it does not
  dispatch it; if the schedule is due (and not itself running) the decision is to
  wait, which leaves it for a later tick.
\<close>

theorem auto_sequence_waits_for_running:
  assumes "(a, d, st0) \<in> set (fst (tick env active_schedules st))"
    and "auto_sequence (heap st0 a)"
    and "\<exists>b\<in>set active_schedules. b \<noteq> a \<and> currently_running (heap st0 b)"
  shows "d \<noteq> Dispatched
         \<and> (\<not> currently_running (heap st0 a) \<and> should_run env (heap st0 a) \<longrightarrow> d = Waiting)"
proof -
  let ?running = "filter (\<lambda>s. currently_running (heap st s)) active_schedules"
  have inv: "\<forall>b\<in>set active_schedules. currently_running (heap st b) = (b \<in> set ?running)"
    by simp
  from assms(1) have mem: "(a, d, st0) \<in> set (fst (tick_loop env ?running 0 active_schedules st))"
    by (simp add: tick_def)
  from tick_loop_trace [OF inv subset_refl mem]
  have d: "d = decide env ?running st0 a"
    and inv0: "\<forall>b\<in>set active_schedules. currently_running (heap st0 b) = (b \<in> set ?running)"
    by simp_all
  from assms(3) inv0 have "?running \<noteq> []" by (auto simp: filter_empty_conv)
  with d assms(2) show ?thesis by (simp add: decide_def)
qed

lemma waiting_tick:
  "fst (tick waiting_env [0, 1] waiting_state)
     = [(0, AlreadyRunning, waiting_state), (1, Waiting, waiting_state)]"
  by (simp add: tick_def waiting_state_def waiting_env_def decide_def should_run_def
        first_run_due_def example_schedule_def strftime_HM_def dt_hour_def dt_minute_def
        digit_char_def)

theorem auto_sequence_waits_witness:
  "(1, Waiting, waiting_state) \<in> set (fst (tick waiting_env [0, 1] waiting_state))
   \<and> auto_sequence (heap waiting_state 1)
   \<and> currently_running (heap waiting_state 0)
   \<and> \<not> currently_running (heap waiting_state 1)
   \<and> should_run waiting_env (heap waiting_state 1)
   \<and> Waiting \<noteq> Dispatched"
proof -
  have h1: "(1, Waiting, waiting_state) \<in> set (fst (tick waiting_env [0, 1] waiting_state))"
    using waiting_tick by simp
  have h2: "auto_sequence (heap waiting_state 1)"
    by (simp add: waiting_state_def)
  have h3: "\<exists>b\<in>set [0, 1]. b \<noteq> 1 \<and> currently_running (heap waiting_state b)"
    by (simp add: waiting_state_def)
  have h4: "currently_running (heap waiting_state 0)" "\<not> currently_running (heap waiting_state 1)"
    by (simp_all add: waiting_state_def example_schedule_def)
  have h5: "should_run waiting_env (heap waiting_state 1)"
    by (simp add: waiting_state_def waiting_env_def should_run_def
        first_run_due_def example_schedule_def strftime_HM_def dt_hour_def dt_minute_def
        digit_char_def)
  from auto_sequence_waits_for_running [OF h1 h2 h3] h1 h2 h4 h5 show ?thesis by simp
qed

section \<open>Duration strings\<close>












lemma str_remove_digits:
  "list_all is_digit ds \<Longrightarrow> pat \<noteq> [] \<Longrightarrow> \<not> is_digit (hd pat)
     \<Longrightarrow> str_remove pat (ds @ rest) = ds @ str_remove pat rest"
proof (induction ds)
  case Nil
  then show ?case by simp
next
  case (Cons d ds)
  from Cons.prems have "\<not> prefix pat (d # ds @ rest)"
    by (cases pat) auto
  with Cons show ?case by simp
qed




lemma str_remove_digits_only:
  "list_all is_digit ds \<Longrightarrow> pat \<noteq> [] \<Longrightarrow> \<not> is_digit (hd pat) \<Longrightarrow> str_remove pat ds = ds"
  using str_remove_digits [of ds pat "[]"] by simp





















section \<open>The safe-time suggestions\<close>

lemma fromkeys_loop_distinct: "distinct keys \<Longrightarrow> distinct (fromkeys_loop keys xs)"
  by (induction xs arbitrary: keys) auto

lemma fromkeys_loop_set: "set (fromkeys_loop keys xs) = set keys \<union> set xs"
  by (induction xs arbitrary: keys) auto

lemma sort_by_time_proximity_distinct:
  "distinct (sort_by_time_proximity xs c) = distinct xs"
  by (simp add: sort_by_time_proximity_def split: option.splits)

lemma sort_by_time_proximity_set: "set (sort_by_time_proximity xs c) = set xs"
  by (simp add: sort_by_time_proximity_def split: option.splits)

lemma suggestions_shape:
  assumes "get_safe_time_suggestions current_time end_clock items new_schedule = Inr ts"
  shows "\<exists>before_slots after_slots fallback_slots.
    find_slots_before_conflicts items new_schedule (conflicting_of items new_schedule) current_time
       = Inr before_slots
    \<and> find_slots_after_conflicts items new_schedule (conflicting_of items new_schedule) end_clock
       = Inr after_slots
    \<and> (fallback_slots = [] \<or> find_fallback_slots items new_schedule current_time = Inr fallback_slots)
    \<and> ts = take 8 (sort_by_time_proximity
                   (fromkeys_loop [] (before_slots @ after_slots @ fallback_slots))
                   (strftime_HM current_time))"
proof -
  let ?cs = "conflicting_of items new_schedule"
  from assms obtain b where b: "find_slots_before_conflicts items new_schedule ?cs current_time = Inr b"
    by (cases "find_slots_before_conflicts items new_schedule ?cs current_time")
       (simp_all add: get_safe_time_suggestions_def conflicting_of_def Let_def)
  from assms b obtain a where a: "find_slots_after_conflicts items new_schedule ?cs end_clock = Inr a"
    by (cases "find_slots_after_conflicts items new_schedule ?cs end_clock")
       (simp_all add: get_safe_time_suggestions_def conflicting_of_def Let_def)
  show ?thesis
  proof (cases "length (b @ a) < 3")
    case True
    with assms a b obtain f where f: "find_fallback_slots items new_schedule current_time = Inr f"
      by (cases "find_fallback_slots items new_schedule current_time")
         (simp_all add: get_safe_time_suggestions_def conflicting_of_def Let_def)
    with True assms a b
    have "ts = take 8 (sort_by_time_proximity (fromkeys_loop [] (b @ a @ f)) (strftime_HM current_time))"
      by (simp add: get_safe_time_suggestions_def conflicting_of_def Let_def)
    with a b f show ?thesis by blast
  next
    case False
    with assms a b
    have "ts = take 8 (sort_by_time_proximity (fromkeys_loop [] (b @ a @ [])) (strftime_HM current_time))"
      by (simp add: get_safe_time_suggestions_def conflicting_of_def Let_def)
    with a b show ?thesis by blast
  qed
qed

lemma example_suggestions:
  "get_safe_time_suggestions 63929139443000005 63929139443000005
      [(''x'', example_schedule ''x'' ''X'' ''09:00'' 30)]
      (example_schedule ''y'' ''Y'' ''09:00'' 30)
    = Inr [''11:00'', ''10:30'', ''10:00'', ''09:30'']"
  by code_simp

text \<open>
  Claim C6. Whenever \<open>get_safe_time_suggestions\<close> returns a list, the list has at
  most 8 entries and no time string occurs twice in it.
\<close>

theorem suggestions_at_most_eight_distinct:
  assumes "get_safe_time_suggestions current_time end_clock items new_schedule = Inr ts"
  shows "length ts \<le> 8 \<and> distinct ts"
proof -
  from suggestions_shape [OF assms]
  obtain xs where "ts = take 8 (sort_by_time_proximity (fromkeys_loop [] xs) (strftime_HM current_time))"
    by blast
  then show ?thesis
    by (simp add: sort_by_time_proximity_distinct fromkeys_loop_distinct)
qed

theorem suggestions_at_most_eight_distinct_witness:
  "get_safe_time_suggestions 63929139443000005 63929139443000005
      [(''x'', example_schedule ''x'' ''X'' ''09:00'' 30)]
      (example_schedule ''y'' ''Y'' ''09:00'' 30)
    = Inr [''11:00'', ''10:30'', ''10:00'', ''09:30'']
   \<and> length [''11:00'', ''10:30'', ''10:00'', ''09:30''] \<le> 8
   \<and> distinct [''11:00'', ''10:30'', ''10:00'', ''09:30'']"
  using suggestions_at_most_eight_distinct [OF example_suggestions] example_suggestions
  by simp

lemma before_step_safe:
  assumes "before_step items new_schedule ct slots = Inr (ct', slots')"
    and "\<forall>t\<in>set slots. is_time_slot_safe items t new_schedule"
  shows "\<forall>t\<in>set slots'. is_time_slot_safe items t new_schedule"
  using assms
  by (auto simp: before_step_def Let_def split: sum.splits if_splits prod.splits)

lemma after_step_safe:
  assumes "after_step items new_schedule ct slots = Inr (ct', slots')"
    and "\<forall>t\<in>set slots. is_time_slot_safe items t new_schedule"
  shows "\<forall>t\<in>set slots'. is_time_slot_safe items t new_schedule"
  using assms
  by (auto simp: after_step_def Let_def split: sum.splits if_splits prod.splits)

lemma before_loop_safe:
  "before_loop items new_schedule ls ct slots = Inr ts
   \<Longrightarrow> \<forall>t\<in>set slots. is_time_slot_safe items t new_schedule
   \<Longrightarrow> \<forall>t\<in>set ts. is_time_slot_safe items t new_schedule"
proof (induction items new_schedule ls ct slots rule: before_loop.induct)
  case (1 items new_schedule ls ct slots)
  show ?case
  proof (cases "ct \<le> ls \<and> length slots < 4")
    case True
    with "1.prems"(1) obtain ct' slots' where
      st: "before_step items new_schedule ct slots = Inr (ct', slots')"
      and lp: "before_loop items new_schedule ls ct' slots' = Inr ts"
      by (subst (asm) before_loop.simps) (auto split: sum.splits)
    from before_step_safe [OF st "1.prems"(2)]
    show ?thesis using "1.IH" [OF True st refl lp] by simp
  next
    case False
    with "1.prems" show ?thesis by (subst (asm) before_loop.simps) auto
  qed
qed

lemma after_loop_safe:
  "after_loop items new_schedule eod ct slots = Inr ts
   \<Longrightarrow> \<forall>t\<in>set slots. is_time_slot_safe items t new_schedule
   \<Longrightarrow> \<forall>t\<in>set ts. is_time_slot_safe items t new_schedule"
proof (induction items new_schedule eod ct slots rule: after_loop.induct)
  case (1 items new_schedule eod ct slots)
  show ?case
  proof (cases "ct \<le> eod \<and> length slots < 4")
    case True
    with "1.prems"(1) obtain ct' slots' where
      st: "after_step items new_schedule ct slots = Inr (ct', slots')"
      and lp: "after_loop items new_schedule eod ct' slots' = Inr ts"
      by (subst (asm) after_loop.simps) (auto split: sum.splits)
    from after_step_safe [OF st "1.prems"(2)]
    show ?thesis using "1.IH" [OF True st refl lp] by simp
  next
    case False
    with "1.prems" show ?thesis by (subst (asm) after_loop.simps) auto
  qed
qed

lemma fallback_loop_safe:
  "\<forall>t\<in>set slots. is_time_slot_safe items t new_schedule
   \<Longrightarrow> \<forall>t\<in>set (fallback_loop items new_schedule bases slots). is_time_slot_safe items t new_schedule"
proof (induction bases arbitrary: slots)
  case Nil
  then show ?case by simp
next
  case (Cons base bases)
  let ?str = "strftime_HM (replace_minute_second0 base (if dt_minute base < 30 then 0 else 30))"
  let ?slots1 = "if is_time_slot_safe items ?str new_schedule then slots @ [?str] else slots"
  have s1: "\<forall>t\<in>set ?slots1. is_time_slot_safe items t new_schedule"
    using Cons.prems by simp
  have "fallback_loop items new_schedule (base # bases) slots
          = fallback_loop items new_schedule bases ?slots1
        \<or> fallback_loop items new_schedule (base # bases) slots
          = fallback_loop items new_schedule bases slots"
    by (simp add: Let_def)
  then show ?case
  proof
    assume e: "fallback_loop items new_schedule (base # bases) slots
          = fallback_loop items new_schedule bases ?slots1"
    show ?thesis unfolding e by (rule Cons.IH [OF s1])
  next
    assume e: "fallback_loop items new_schedule (base # bases) slots
          = fallback_loop items new_schedule bases slots"
    show ?thesis unfolding e by (rule Cons.IH [OF Cons.prems])
  qed
qed



lemma find_slots_before_safe:
  assumes "find_slots_before_conflicts items new_schedule cs ct = Inr ts"
  shows "\<forall>t\<in>set ts. is_time_slot_safe items t new_schedule"
proof -
  have "ts = [] \<or> (\<exists>ls c0. before_loop items new_schedule ls c0 [] = Inr ts)"
    using assms
    by (auto simp: find_slots_before_conflicts_def split: if_splits option.splits sum.splits)
  then show ?thesis
    using before_loop_safe [of items new_schedule _ _ "[]" ts] by auto
qed

lemma find_slots_after_safe:
  assumes "find_slots_after_conflicts items new_schedule cs ec = Inr ts"
  shows "\<forall>t\<in>set ts. is_time_slot_safe items t new_schedule"
proof -
  have "ts = [] \<or> (\<exists>eod c0. after_loop items new_schedule eod c0 [] = Inr ts)"
    using assms
    by (auto simp: find_slots_after_conflicts_def split: if_splits option.splits sum.splits)
  then show ?thesis
    using after_loop_safe [of items new_schedule _ _ "[]" ts] by auto
qed

lemma find_fallback_safe:
  assumes "find_fallback_slots items new_schedule ct = Inr ts"
  shows "\<forall>t\<in>set ts. is_time_slot_safe items t new_schedule"
proof -
  have "\<exists>bases. ts = fallback_loop items new_schedule bases []"
    using assms unfolding find_fallback_slots_def
    by (simp split: sum.splits del: fallback_loop.simps) blast
  then show ?thesis
    using fallback_loop_safe [of "[]" items new_schedule] by auto
qed

text \<open>
  Claim C4. Every time string that \<open>get_safe_time_suggestions\<close> returns, put as
  the start time of the probe schedule (the candidate's terms and estimated
  duration), gets an empty conflict list from \<open>check_schedule_conflicts\<close> on the
  same store.
\<close>

theorem suggested_times_are_safe:
  assumes "get_safe_time_suggestions current_time end_clock items new_schedule = Inr ts"
    and "t \<in> set ts"
  shows "check_schedule_conflicts items (temp_schedule t new_schedule) = []"
proof -
  from suggestions_shape [OF assms(1)]
  obtain before_slots after_slots fallback_slots where
    b: "find_slots_before_conflicts items new_schedule (conflicting_of items new_schedule)
          current_time = Inr before_slots"
    and a: "find_slots_after_conflicts items new_schedule (conflicting_of items new_schedule)
          end_clock = Inr after_slots"
    and f: "fallback_slots = [] \<or> find_fallback_slots items new_schedule current_time = Inr fallback_slots"
    and ts: "ts = take 8 (sort_by_time_proximity
                   (fromkeys_loop [] (before_slots @ after_slots @ fallback_slots))
                   (strftime_HM current_time))"
    by blast
  from assms(2) ts have "t \<in> set (sort_by_time_proximity
                   (fromkeys_loop [] (before_slots @ after_slots @ fallback_slots))
                   (strftime_HM current_time))"
    by (auto dest: in_set_takeD)
  then have "t \<in> set before_slots \<union> set after_slots \<union> set fallback_slots"
    by (simp add: sort_by_time_proximity_set fromkeys_loop_set Un_assoc)
  moreover have "\<forall>t\<in>set fallback_slots. is_time_slot_safe items t new_schedule"
    using f find_fallback_safe by auto
  ultimately have "is_time_slot_safe items t new_schedule"
    using find_slots_before_safe [OF b] find_slots_after_safe [OF a] by auto
  then show ?thesis by (simp add: is_time_slot_safe_def)
qed

theorem suggested_times_are_safe_witness:
  "get_safe_time_suggestions 63929139443000005 63929139443000005
      [(''x'', example_schedule ''x'' ''X'' ''09:00'' 30)]
      (example_schedule ''y'' ''Y'' ''09:00'' 30)
    = Inr [''11:00'', ''10:30'', ''10:00'', ''09:30'']
   \<and> ''09:30'' \<in> set [''11:00'', ''10:30'', ''10:00'', ''09:30'']
   \<and> check_schedule_conflicts [(''x'', example_schedule ''x'' ''X'' ''09:00'' 30)]
        (temp_schedule ''09:30'' (example_schedule ''y'' ''Y'' ''09:00'' 30)) = []"
proof -
  have m: "''09:30'' \<in> set [''11:00'', ''10:30'', ''10:00'', ''09:30'']"
    by simp
  from suggested_times_are_safe [OF example_suggestions m] example_suggestions m
  show ?thesis by simp
qed

section \<open>The sequential time\<close>




















end
